theory Spec2Isabelle
  imports Main "HOL-Library.Stream"
begin

section \<open>The autoscaler's entry point (main.py)\<close>

text \<open>
  The module has three parts: the table from the verbosity count to a logging level, the
  click parameter type \<open>MultimapParamType\<close> that parses \<open>k=v,k=v\<close> lists into a
  map from keys to sets of values, and \<open>main\<close>, which checks the credentials, builds the
  notifier and the cluster and then loops around \<open>cluster.scale_loop()\<close> with a
  doubling backoff, until an exception leaves the loop.

  Python's \<open>int\<close> is unbounded and is modelled by \<open>int\<close>. Strings are \<open>string\<close>; the two
  separators the code splits on are ASCII, so splitting a UTF-8 byte string and splitting
  the code points agree.
\<close>

subsection \<open>Strings: \<open>str.split(sep)\<close> with a one-character separator\<close>

text \<open>
  \<open>s.split(sep)\<close> cuts at every occurrence of the separator and keeps empty pieces:
  \<open>''.split(',') = ['']\<close>, \<open>',a,'.split(',') = ['', 'a', '']\<close>. The result is never the
  empty list, so the last case of the \<open>case\<close> below is never taken.
\<close>

fun str_split :: "char \<Rightarrow> string \<Rightarrow> string list" where
  "str_split sep [] = [[]]"
| "str_split sep (c # cs) =
     (if c = sep then [] # str_split sep cs
      else (case str_split sep cs of
              piece # pieces \<Rightarrow> (c # piece) # pieces
            | [] \<Rightarrow> [[c]]))"

subsection \<open>\<open>MultimapParamType\<close>\<close>

text \<open>
  The result of \<open>convert\<close> is a \<open>dict\<close> from strings to \<open>set\<close>s of strings. Click's
  \<open>self.fail(message, param, ctx)\<close> raises \<open>BadParameter\<close> with the message and the
  parameter it was called for; the context plays no part here and is left out.
\<close>

type_synonym multimap = "string \<rightharpoonup> string set"

datatype error = BadParameter string string

text \<open>The two statements of the \<open>try\<close> body after the unpacking:
  \<^verbatim>\<open>if entry_key not in result: result[entry_key] = set()\<close> and
  \<^verbatim>\<open>result[entry_key].add(entry_value)\<close>.\<close>

definition add_entry :: "multimap \<Rightarrow> string \<Rightarrow> string \<Rightarrow> multimap" where
  "add_entry result entry_key entry_value =
     (let result' = (if result entry_key = None then result(entry_key \<mapsto> {}) else result)
      in case result' entry_key of
           Some values \<Rightarrow> result'(entry_key \<mapsto> insert entry_value values)
         | None \<Rightarrow> result')"

text \<open>The message of the failure, \<^verbatim>\<open>'%s is not a key=value pair' % value\<close>: it quotes the
  whole option value, not the entry.\<close>

definition fail_message :: "string \<Rightarrow> string" where
  "fail_message value = value @ '' is not a key=value pair''"

text \<open>
  The \<open>for\<close> loop over the entries. The unpacking
  \<^verbatim>\<open>entry_key, entry_value = entry.split('=')\<close> raises \<open>ValueError\<close> unless the split has
  exactly two pieces; the handler turns that into \<open>self.fail\<close>, which leaves \<open>convert\<close>.
\<close>

fun convert_entries :: "string \<Rightarrow> string \<Rightarrow> string list \<Rightarrow> multimap \<Rightarrow> error + multimap" where
  "convert_entries value param [] result = Inr result"
| "convert_entries value param (entry # entry_list) result =
     (case str_split (CHR ''='') entry of
        [entry_key, entry_value] \<Rightarrow>
          convert_entries value param entry_list (add_entry result entry_key entry_value)
      | _ \<Rightarrow> Inl (BadParameter (fail_message value) param))"

definition convert :: "string \<Rightarrow> string \<Rightarrow> error + multimap" where
  "convert value param =
     (if value = [] then Inr Map.empty
      else convert_entries value param (str_split (CHR '','') value) Map.empty)"

text \<open>\<^verbatim>\<open>MULTIMAP_PARAM = MultimapParamType()\<close>: the one instance. The class has no state, so
  the instance is its \<open>convert\<close> method. Both multimap options are declared with
  \<^verbatim>\<open>type=MULTIMAP_PARAM\<close>; click calls the type with the option's value and the option
  itself, named here by its parameter name.\<close>

definition MULTIMAP_PARAM :: "string \<Rightarrow> string \<Rightarrow> error + multimap" where
  "MULTIMAP_PARAM = convert"

definition drainable_labels_option :: "string \<Rightarrow> error + multimap" where
  "drainable_labels_option value = MULTIMAP_PARAM value ''drainable_labels''"

definition instance_type_priorities_option :: "string \<Rightarrow> error + multimap" where
  "instance_type_priorities_option value = MULTIMAP_PARAM value ''instance_type_priorities''"

subsection \<open>Inputs in the documented syntax\<close>

text \<open>
  What the class's docstring calls a multimap parameter: entries separated by commas,
  each a key and a value separated by an equals sign. \<open>render\<close> writes a list of pairs
  in that syntax (\<open>','.join(k + '=' + v ...)\<close>); \<open>plain\<close> says that a key or a value holds
  neither separator; \<open>multimap_of\<close> is the map the docstring promises: every key with the
  set of all values given for it.
\<close>

fun str_join :: "char \<Rightarrow> string list \<Rightarrow> string" where
  "str_join sep [] = []"
| "str_join sep [piece] = piece"
| "str_join sep (piece # pieces) = piece @ sep # str_join sep pieces"

definition entry_of :: "string \<times> string \<Rightarrow> string" where
  "entry_of kv = fst kv @ CHR ''='' # snd kv"

definition render :: "(string \<times> string) list \<Rightarrow> string" where
  "render kvs = str_join (CHR '','') (map entry_of kvs)"

definition plain :: "string \<Rightarrow> bool" where
  "plain s = (CHR '','' \<notin> set s \<and> CHR ''='' \<notin> set s)"

definition plain_pairs :: "(string \<times> string) list \<Rightarrow> bool" where
  "plain_pairs kvs = list_all (\<lambda>kv. plain (fst kv) \<and> plain (snd kv)) kvs"

definition multimap_of :: "(string \<times> string) list \<Rightarrow> multimap" where
  "multimap_of kvs =
     (\<lambda>k. if k \<in> fst ` set kvs then Some {v. (k, v) \<in> set kvs} else None)"

text \<open>The map after a run of well-formed entries, started from any \<open>result\<close>: the keys of
  the entries gain the entries' values, the other keys are untouched.\<close>

definition merged :: "multimap \<Rightarrow> (string \<times> string) list \<Rightarrow> multimap" where
  "merged result kvs =
     (\<lambda>k. if k \<in> fst ` set kvs
          then Some ((case result k of None \<Rightarrow> {} | Some vs \<Rightarrow> vs) \<union> {v. (k, v) \<in> set kvs})
          else result k)"

subsection \<open>Logging levels\<close>

text \<open>The numeric levels of Python's \<open>logging\<close> module.\<close>

definition CRITICAL :: int where "CRITICAL = 50"
definition ERROR :: int where "ERROR = 40"
definition WARNING :: int where "WARNING = 30"
definition INFO :: int where "INFO = 20"
definition DEBUG :: int where "DEBUG = 10"

definition DEBUG_LOGGING_MAP :: "int \<rightharpoonup> int" where
  "DEBUG_LOGGING_MAP = [0 \<mapsto> CRITICAL, 1 \<mapsto> WARNING, 2 \<mapsto> INFO, 3 \<mapsto> DEBUG]"

text \<open>\<open>d.get(key, default)\<close>.\<close>

definition dict_get :: "('k \<rightharpoonup> 'v) \<Rightarrow> 'k \<Rightarrow> 'v \<Rightarrow> 'v" where
  "dict_get d key dflt = (case d key of Some v \<Rightarrow> v | None \<Rightarrow> dflt)"

text \<open>The level \<open>main\<close> sets: \<^verbatim>\<open>DEBUG_LOGGING_MAP.get(verbose, logging.CRITICAL)\<close>.\<close>

definition log_level :: "int \<Rightarrow> int" where
  "log_level verbose = dict_get DEBUG_LOGGING_MAP verbose CRITICAL"

text \<open>
  The \<open>--verbose\<close> option is declared with \<^verbatim>\<open>type=click.IntRange(0, 3, clamp=True)\<close> and
  \<^verbatim>\<open>count=True\<close>: the number of times the flag is given goes through the range type,
  which with \<open>clamp\<close> moves a value outside the range to the nearer bound.
\<close>

definition IntRange_clamp :: "int \<Rightarrow> int \<Rightarrow> int \<Rightarrow> int" where
  "IntRange_clamp lo hi v = (if v < lo then lo else if hi < v then hi else v)"

definition verbose_option :: "int \<Rightarrow> int" where
  "verbose_option count = IntRange_clamp 0 3 count"

subsection \<open>\<open>main\<close>\<close>

text \<open>The parameters of \<open>main\<close>, as click passes them after parsing the command line.\<close>

record main_args =
  arg_cluster_name :: "string option"
  arg_regions :: string
  arg_sleep :: int
  arg_kubeconfig :: "string option"
  arg_pod_namespace :: "string option"
  arg_aws_access_key :: "string option"
  arg_aws_secret_key :: "string option"
  arg_datadog_api_key :: "string option"
  arg_idle_threshold :: int
  arg_type_idle_threshold :: int
  arg_over_provision :: int
  arg_instance_init_time :: int
  arg_no_scale :: bool
  arg_no_maintenance :: bool
  arg_slack_hook :: "string option"
  arg_slack_bot_token :: "string option"
  arg_dry_run :: bool
  arg_verbose :: int
  arg_drainable_labels :: multimap
  arg_scale_label :: "string option"
  arg_instance_type_priorities :: multimap

text \<open>The defaults of the option declarations, with no environment variable set.\<close>

definition default_args :: main_args where
  "default_args =
     \<lparr> arg_cluster_name = None, arg_regions = ''us-west-1'', arg_sleep = 60,
       arg_kubeconfig = None, arg_pod_namespace = None,
       arg_aws_access_key = None, arg_aws_secret_key = None, arg_datadog_api_key = None,
       arg_idle_threshold = 3600, arg_type_idle_threshold = 3600 * 24 * 7,
       arg_over_provision = 5, arg_instance_init_time = 25 * 60,
       arg_no_scale = False, arg_no_maintenance = False,
       arg_slack_hook = None, arg_slack_bot_token = None, arg_dry_run = False,
       arg_verbose = 0, arg_drainable_labels = Map.empty, arg_scale_label = None,
       arg_instance_type_priorities = Map.empty \<rparr>"

text \<open>The keyword arguments of the \<open>Cluster\<close> constructor (the spelling
  \<open>maintainance\<close> is the source's). The notifier is the \<open>Notifier\<close> built just before
  from the Slack hook and the Slack bot token, and stands here as that pair.\<close>

record cluster_kwargs =
  kw_aws_access_key :: "string option"
  kw_aws_secret_key :: "string option"
  kw_regions :: "string list"
  kw_kubeconfig :: "string option"
  kw_pod_namespace :: "string option"
  kw_idle_threshold :: int
  kw_instance_init_time :: int
  kw_type_idle_threshold :: int
  kw_cluster_name :: "string option"
  kw_scale_up :: bool
  kw_maintainance :: bool
  kw_over_provision :: int
  kw_datadog_api_key :: "string option"
  kw_notifier :: "string option \<times> string option"
  kw_dry_run :: bool
  kw_drainable_labels :: multimap
  kw_scale_label :: "string option"
  kw_instance_type_priorities :: multimap

text \<open>
  What \<open>main\<close> does to the outside world, in order: calls on the logger, the two
  constructors, each call of \<open>cluster.scale_loop()\<close> with the value it returned, and each
  \<open>time.sleep\<close> with its duration. A \<open>Log\<close> event is the call on the logger with its level;
  whether the handler prints the record depends on the level set before.
\<close>

datatype log_message = Message string | Formatted string int

datatype event =
    AddHandler
  | SetLevel int
  | Log int log_message
  | NewNotifier "string option" "string option"
  | NewCluster cluster_kwargs
  | ScaleLoop bool
  | Sleep int

text \<open>
  The exceptions that can leave \<open>main\<close>. \<open>sys.exit(status)\<close> raises \<open>SystemExit\<close>; an
  exception raised by a call in the loop (\<open>ValueError\<close> and \<open>OverflowError\<close> come from
  \<open>time.sleep\<close>, anything else from \<open>cluster.scale_loop()\<close>) is not caught either, since
  \<open>main\<close> has no \<open>try\<close> statement.
\<close>

datatype py_exception = ValueError | OverflowError | OtherException string

datatype exit = SystemExit int | Uncaught py_exception

text \<open>
  \<open>time.sleep(secs)\<close> on an \<open>int\<close>, as CPython 3 does it: the seconds are converted to a
  signed 64-bit count of nanoseconds, which raises \<open>OverflowError\<close> when it does not fit
  (beyond 9223372036 seconds either way); a negative duration that fits raises
  \<open>ValueError\<close>; any other duration is slept and the call returns.
\<close>

definition time_sleep :: "int \<Rightarrow> py_exception + unit" where
  "time_sleep secs =
     (if secs * 10 ^ 9 < - (2 ^ 63) \<or> 2 ^ 63 - 1 < secs * 10 ^ 9 then Inl OverflowError
      else if secs < 0 then Inl ValueError
      else Inr ())"

text \<open>
  What reaches standard error. The logger hands a record to its handler when the record's
  level is at least the level set on the logger (the stream handler itself has no level),
  so a call \<open>Log l m\<close> prints exactly when the level in force is at most \<open>l\<close>. Before any
  \<open>setLevel\<close> the level in force is the root logger's, \<open>WARNING\<close>.
\<close>

fun stderr_records :: "int \<Rightarrow> event list \<Rightarrow> (int \<times> log_message) list" where
  "stderr_records level [] = []"
| "stderr_records level (SetLevel l # events) = stderr_records l events"
| "stderr_records level (Log l m # events) =
     (if level \<le> l then (l, m) # stderr_records level events
      else stderr_records level events)"
| "stderr_records level (_ # events) = stderr_records level events"

definition emitted :: "event list \<Rightarrow> (int \<times> log_message) list" where
  "emitted events = stderr_records WARNING events"

text \<open>Truth value of an optional string: \<open>None\<close> and \<open>''\<close> are false.\<close>

definition truthy :: "string option \<Rightarrow> bool" where
  "truthy s = (case s of None \<Rightarrow> False | Some t \<Rightarrow> t \<noteq> [])"

definition configure_logging :: "int \<Rightarrow> event list" where
  "configure_logging verbose = [AddHandler, SetLevel (log_level verbose)]"

definition cluster_of :: "main_args \<Rightarrow> cluster_kwargs" where
  "cluster_of args =
     \<lparr> kw_aws_access_key = arg_aws_access_key args,
       kw_aws_secret_key = arg_aws_secret_key args,
       kw_regions = str_split (CHR '','') (arg_regions args),
       kw_kubeconfig = arg_kubeconfig args,
       kw_pod_namespace = arg_pod_namespace args,
       kw_idle_threshold = arg_idle_threshold args,
       kw_instance_init_time = arg_instance_init_time args,
       kw_type_idle_threshold = arg_type_idle_threshold args,
       kw_cluster_name = arg_cluster_name args,
       kw_scale_up = (\<not> arg_no_scale args),
       kw_maintainance = (\<not> arg_no_maintenance args),
       kw_over_provision = arg_over_provision args,
       kw_datadog_api_key = arg_datadog_api_key args,
       kw_notifier = (arg_slack_hook args, arg_slack_bot_token args),
       kw_dry_run = arg_dry_run args,
       kw_drainable_labels = arg_drainable_labels args,
       kw_scale_label = arg_scale_label args,
       kw_instance_type_priorities = arg_instance_type_priorities args \<rparr>"

text \<open>
  Lines 92 to 120: the logger is configured, the credentials are checked, and only then
  are the notifier and the cluster built. The result is the trace so far and either the
  exit raised by \<open>sys.exit(1)\<close> or the cluster the loop will drive.
\<close>

definition missing_credentials :: string where
  "missing_credentials =
     ''Missing AWS credentials. Please provide aws-access-key and aws-secret-key.''"

definition startup :: "main_args \<Rightarrow> event list \<times> (exit + cluster_kwargs)" where
  "startup args =
     (if \<not> (truthy (arg_aws_secret_key args) \<and> truthy (arg_aws_access_key args))
      then (configure_logging (arg_verbose args) @ [Log ERROR (Message missing_credentials)],
            Inl (SystemExit 1))
      else (configure_logging (arg_verbose args) @
              [NewNotifier (arg_slack_hook args) (arg_slack_bot_token args),
               NewCluster (cluster_of args)],
            Inr (cluster_of args)))"

text \<open>
  One pass of the \<open>while True\<close> body, given what \<open>cluster.scale_loop()\<close> returned: the
  events of the pass and the value of \<open>backoff\<close> after it. \<open>logger.warn\<close> logs at level
  \<open>WARNING\<close>, and it logs \<open>backoff\<close> before the doubling.
\<close>

definition loop_body :: "int \<Rightarrow> int \<Rightarrow> bool \<Rightarrow> event list \<times> int" where
  "loop_body sleep backoff scaled =
     (if scaled then ([ScaleLoop scaled, Sleep sleep], sleep)
      else ([ScaleLoop scaled, Log WARNING (Formatted ''backoff: %s'' backoff),
             Sleep (backoff * 2)],
            backoff * 2))"

text \<open>The first passes of the loop, one for each result in the list: the trace of these
  passes and \<open>backoff\<close> after the last of them.\<close>

fun loop_passes :: "int \<Rightarrow> int \<Rightarrow> bool list \<Rightarrow> event list \<times> int" where
  "loop_passes sleep backoff [] = ([], backoff)"
| "loop_passes sleep backoff (scaled # results) =
     (let (events, backoff') = loop_body sleep backoff scaled;
          (events', backoff'') = loop_passes sleep backoff' results
      in (events @ events', backoff''))"

text \<open>Line 121, \<^verbatim>\<open>backoff = sleep\<close>, and then the passes.\<close>

definition run_loop :: "int \<Rightarrow> bool list \<Rightarrow> event list \<times> int" where
  "run_loop sleep results = loop_passes sleep sleep results"

text \<open>The durations of the \<open>time.sleep\<close> calls of a trace, in order.\<close>

fun sleeps :: "event list \<Rightarrow> int list" where
  "sleeps [] = []"
| "sleeps (Sleep d # events) = d # sleeps events"
| "sleeps (_ # events) = sleeps events"

text \<open>The values logged by \<open>logger.warn\<close>, in order.\<close>

fun logged_backoffs :: "event list \<Rightarrow> int list" where
  "logged_backoffs [] = []"
| "logged_backoffs (Log _ (Formatted _ b) # events) = b # logged_backoffs events"
| "logged_backoffs (_ # events) = logged_backoffs events"

text \<open>
  The loop itself, against the infinite sequence of outcomes of \<open>cluster.scale_loop()\<close>:
  each call either raises or returns a truth value. The value of \<open>main_loop\<close> is how the
  loop ends: \<open>Some\<close> of the exception that leaves it, or \<open>None\<close> when control never leaves
  it. The body has no \<open>break\<close> and no \<open>return\<close>; \<open>logger.warn\<close> returns.
\<close>

partial_function (option)
  main_loop :: "int \<Rightarrow> int \<Rightarrow> (py_exception + bool) stream \<Rightarrow> exit option" where
  "main_loop sleep backoff results =
     (case shd results of
        Inl e \<Rightarrow> Some (Uncaught e)
      | Inr scaled \<Rightarrow>
          (if scaled then
             (case time_sleep sleep of
                Inl e \<Rightarrow> Some (Uncaught e)
              | Inr _ \<Rightarrow> main_loop sleep sleep (stl results))
           else
             (case time_sleep (backoff * 2) of
                Inl e \<Rightarrow> Some (Uncaught e)
              | Inr _ \<Rightarrow> main_loop sleep (backoff * 2) (stl results))))"

text \<open>The claims speak of runs in which every call of \<open>cluster.scale_loop()\<close> returns a
  truth value: \<open>returned\<close> is that sequence of outcomes.\<close>

definition returned :: "bool stream \<Rightarrow> (py_exception + bool) stream" where
  "returned results = smap Inr results"


text \<open>\<open>main\<close>: how the process ends, if it does.\<close>

definition main :: "main_args \<Rightarrow> (py_exception + bool) stream \<Rightarrow> exit option" where
  "main args results =
     (case snd (startup args) of
        Inl e \<Rightarrow> Some e
      | Inr cluster \<Rightarrow> main_loop (arg_sleep args) (arg_sleep args) results)"

text \<open>The trace of \<open>main\<close> up to the end of the first passes of the loop.\<close>

definition main_trace :: "main_args \<Rightarrow> bool list \<Rightarrow> event list" where
  "main_trace args results =
     (case snd (startup args) of
        Inl e \<Rightarrow> fst (startup args)
      | Inr cluster \<Rightarrow> fst (startup args) @ fst (run_loop (arg_sleep args) results))"

section \<open>Properties\<close>

subsection \<open>Splitting and joining\<close>

lemma str_split_not_Nil: "str_split sep s \<noteq> []"
  by (induction s) (auto split: list.splits)

lemma str_split_length: "length (str_split sep s) = Suc (count_list s sep)"
  by (induction s) (auto split: list.splits)

lemma str_split_plain: "sep \<notin> set s \<Longrightarrow> str_split sep s = [s]"
  by (induction s) auto

lemma str_split_append:
  "sep \<notin> set k \<Longrightarrow> str_split sep (k @ sep # rest) = k # str_split sep rest"
  by (induction k) auto

lemma str_split_pieces: "p \<in> set (str_split sep s) \<Longrightarrow> sep \<notin> set p"
  by (induction s arbitrary: p) (auto split: list.splits if_splits)

lemma str_split_join:
  "pieces \<noteq> [] \<Longrightarrow> \<forall>p\<in>set pieces. sep \<notin> set p \<Longrightarrow>
   str_split sep (str_join sep pieces) = pieces"
  by (induction sep pieces rule: str_join.induct) (auto simp: str_split_plain str_split_append)

lemma str_join_Cons: "str_join sep ((c # p) # ps) = c # str_join sep (p # ps)"
  by (cases ps) auto

lemma str_join_split: "str_join sep (str_split sep s) = s"
  by (induction s) (auto split: list.splits simp: str_split_not_Nil str_join_Cons)

text \<open>The unpacking into two names succeeds exactly on an entry with one equals sign.\<close>

lemma str_split_two: "(\<exists>k v. str_split sep e = [k, v]) \<longleftrightarrow> count_list e sep = 1"
proof -
  have "(\<exists>k v. str_split sep e = [k, v]) \<longleftrightarrow> length (str_split sep e) = 2"
    by (auto simp: length_Suc_conv numeral_2_eq_2)
  then show ?thesis by (simp add: str_split_length)
qed

subsection \<open>The loop over the entries\<close>

lemma convert_entries_bad:
  "\<exists>e\<in>set es. count_list e (CHR ''='') \<noteq> 1 \<Longrightarrow>
   convert_entries value param es result = Inl (BadParameter (fail_message value) param)"
proof (induction es arbitrary: result)
  case Nil
  then show ?case by simp
next
  case (Cons e es)
  show ?case
  proof (cases "count_list e (CHR ''='') = 1")
    case True
    then obtain k v where "str_split (CHR ''='') e = [k, v]"
      using str_split_two by blast
    moreover from True Cons.prems have "\<exists>e\<in>set es. count_list e (CHR ''='') \<noteq> 1"
      by auto
    ultimately show ?thesis
      using Cons.IH by simp
  next
    case False
    then have "\<nexists>k v. str_split (CHR ''='') e = [k, v]"
      using str_split_two by blast
    then show ?thesis
      by (auto split: list.splits)
  qed
qed

lemma add_entry_apply:
  "add_entry m k v k' =
     (if k' = k then Some (insert v (case m k of None \<Rightarrow> {} | Some vs \<Rightarrow> vs)) else m k')"
  by (auto simp: add_entry_def Let_def split: option.splits)

lemma str_split_entry_of:
  "plain (fst kv) \<Longrightarrow> plain (snd kv) \<Longrightarrow>
   str_split (CHR ''='') (entry_of kv) = [fst kv, snd kv]"
  by (simp add: plain_def entry_of_def str_split_append str_split_plain)

lemma merged_Cons: "merged (add_entry result (fst kv) (snd kv)) kvs = merged result (kv # kvs)"
proof (rule ext)
  fix k
  have in_keys: "(k, v) \<in> set kvs \<Longrightarrow> k \<in> fst ` set kvs" for v
    by force
  show "merged (add_entry result (fst kv) (snd kv)) kvs k = merged result (kv # kvs) k"
    by (cases kv) (auto simp: merged_def add_entry_apply in_keys split: option.splits)
qed

lemma convert_entries_good:
  "plain_pairs kvs \<Longrightarrow>
   convert_entries value param (map entry_of kvs) result = Inr (merged result kvs)"
proof (induction kvs arbitrary: result)
  case Nil
  show ?case by (simp add: merged_def)
next
  case (Cons kv kvs)
  from Cons.prems have kv: "plain (fst kv)" "plain (snd kv)" and rest: "plain_pairs kvs"
    by (simp_all add: plain_pairs_def)
  have "convert_entries value param (map entry_of (kv # kvs)) result =
        convert_entries value param (map entry_of kvs) (add_entry result (fst kv) (snd kv))"
    by (simp add: str_split_entry_of [OF kv])
  also have "\<dots> = Inr (merged (add_entry result (fst kv) (snd kv)) kvs)"
    by (rule Cons.IH [OF rest])
  finally show ?case
    by (simp only: merged_Cons)
qed

lemma merged_empty: "merged Map.empty kvs = multimap_of kvs"
  by (rule ext) (simp add: merged_def multimap_of_def)

lemma entry_of_no_comma:
  "plain (fst kv) \<Longrightarrow> plain (snd kv) \<Longrightarrow> CHR '','' \<notin> set (entry_of kv)"
  by (simp add: plain_def entry_of_def)

lemma str_split_render:
  assumes "plain_pairs kvs" and "kvs \<noteq> []"
  shows "str_split (CHR '','') (render kvs) = map entry_of kvs"
proof -
  have "\<forall>p\<in>set (map entry_of kvs). CHR '','' \<notin> set p"
    using assms(1) by (auto simp: plain_pairs_def list_all_iff entry_of_no_comma)
  with assms(2) show ?thesis
    unfolding render_def by (intro str_split_join) simp_all
qed

lemma render_eq_Nil: "render kvs = [] \<longleftrightarrow> kvs = []"
proof (cases kvs)
  case Nil
  then show ?thesis by (simp add: render_def)
next
  case (Cons kv rest)
  then show ?thesis
    by (cases rest) (simp_all add: render_def entry_of_def)
qed

text \<open>
  Every string whose comma-separated entries each hold exactly one equals sign is the
  rendering of a list of pairs of plain keys and values, so the theorem on rendered lists
  below speaks of all such strings.
\<close>

lemma entry_is_pair:
  assumes "count_list entry (CHR ''='') = 1" and "CHR '','' \<notin> set entry"
  shows "\<exists>kv. plain (fst kv) \<and> plain (snd kv) \<and> entry = entry_of kv"
proof -
  from assms(1) obtain k v where kv: "str_split (CHR ''='') entry = [k, v]"
    using str_split_two by blast
  have "str_join (CHR ''='') [k, v] = entry"
    using str_join_split [of "CHR ''=''" entry] by (simp only: kv)
  then have entry: "entry = entry_of (k, v)"
    by (simp add: entry_of_def)
  have "CHR ''='' \<notin> set k" "CHR ''='' \<notin> set v"
    using str_split_pieces [of _ "CHR ''=''" entry] by (simp_all add: kv)
  moreover have "CHR '','' \<notin> set k" "CHR '','' \<notin> set v"
    using assms(2) by (simp_all add: entry entry_of_def)
  ultimately show ?thesis
    using entry by (intro exI [of _ "(k, v)"]) (simp add: plain_def)
qed

lemma entries_are_pairs:
  "\<forall>entry\<in>set entries. count_list entry (CHR ''='') = 1 \<and> CHR '','' \<notin> set entry \<Longrightarrow>
   \<exists>kvs. plain_pairs kvs \<and> entries = map entry_of kvs"
proof (induction entries)
  case Nil
  show ?case by (intro exI [of _ "[]"]) (simp add: plain_pairs_def)
next
  case (Cons entry entries)
  then obtain kvs where kvs: "plain_pairs kvs" "entries = map entry_of kvs"
    by auto
  from Cons.prems obtain kv where kv: "plain (fst kv)" "plain (snd kv)" "entry = entry_of kv"
    using entry_is_pair [of entry] by auto
  show ?case
    using kvs kv by (intro exI [of _ "kv # kvs"]) (simp add: plain_pairs_def)
qed

lemma documented_syntax:
  assumes "\<forall>entry\<in>set (str_split (CHR '','') value). count_list entry (CHR ''='') = 1"
  shows "\<exists>kvs. plain_pairs kvs \<and> kvs \<noteq> [] \<and> value = render kvs"
proof -
  have "\<forall>entry\<in>set (str_split (CHR '','') value).
          count_list entry (CHR ''='') = 1 \<and> CHR '','' \<notin> set entry"
    using assms str_split_pieces by blast
  then obtain kvs where kvs: "plain_pairs kvs" "str_split (CHR '','') value = map entry_of kvs"
    using entries_are_pairs by blast
  have "value = render kvs"
    using str_join_split [of "CHR '',''" "value"] by (simp add: render_def kvs(2))
  moreover have "kvs \<noteq> []"
    using kvs(2) str_split_not_Nil [of "CHR '',''" "value"] by auto
  ultimately show ?thesis
    using kvs(1) by blast
qed

subsection \<open>\<open>convert\<close>\<close>

lemma convert_render:
  assumes "plain_pairs kvs"
  shows "convert (render kvs) param = Inr (multimap_of kvs)"
proof (cases "kvs = []")
  case True
  then show ?thesis
    by (simp add: convert_def render_def multimap_of_def)
next
  case False
  then have "render kvs \<noteq> []"
    by (simp add: render_eq_Nil)
  then show ?thesis
    using assms False
    by (simp add: convert_def str_split_render convert_entries_good merged_empty)
qed

text \<open>
  C4. On every input in the documented syntax (entries separated by commas, each a key, one
  equals sign and a value), \<open>convert\<close> returns the map whose keys are exactly the keys of
  the input, each with the set of all values the input pairs with it: repeated keys
  accumulate. The first half is about the rendering of any list of pairs, the second says
  that every string whose entries each hold exactly one equals sign is such a rendering.
\<close>

theorem convert_multimap:
  "(plain_pairs kvs \<longrightarrow> convert (render kvs) param = Inr (multimap_of kvs)) \<and>
   ((\<forall>entry\<in>set (str_split (CHR '','') value). count_list entry (CHR ''='') = 1) \<longrightarrow>
      (\<exists>pairs. plain_pairs pairs \<and> value = render pairs \<and>
         convert value param = Inr (multimap_of pairs)))"
proof (intro conjI impI)
  assume "plain_pairs kvs"
  then show "convert (render kvs) param = Inr (multimap_of kvs)"
    by (rule convert_render)
next
  assume "\<forall>entry\<in>set (str_split (CHR '','') value). count_list entry (CHR ''='') = 1"
  then obtain pairs where pairs: "plain_pairs pairs" "value = render pairs"
    using documented_syntax by blast
  then have "convert value param = Inr (multimap_of pairs)"
    by (simp add: convert_render)
  with pairs show "\<exists>pairs. plain_pairs pairs \<and> value = render pairs \<and>
      convert value param = Inr (multimap_of pairs)"
    by blast
qed

theorem convert_multimap_witness:
  "plain_pairs [(''a'', ''1''), (''b'', ''3''), (''a'', ''2'')] \<and>
   render [(''a'', ''1''), (''b'', ''3''), (''a'', ''2'')] = ''a=1,b=3,a=2'' \<and>
   convert ''a=1,b=3,a=2'' ''drainable_labels'' =
     Inr (multimap_of [(''a'', ''1''), (''b'', ''3''), (''a'', ''2'')]) \<and>
   multimap_of [(''a'', ''1''), (''b'', ''3''), (''a'', ''2'')] ''a'' = Some {''1'', ''2''} \<and>
   multimap_of [(''a'', ''1''), (''b'', ''3''), (''a'', ''2'')] ''c'' = None \<and>
   (\<exists>pairs. plain_pairs pairs \<and> ''a=1,b=3,a=2'' = render pairs \<and>
      convert ''a=1,b=3,a=2'' ''drainable_labels'' = Inr (multimap_of pairs))"
proof -
  let ?kvs = "[(''a'', ''1''), (''b'', ''3''), (''a'', ''2'')]"
  note both = convert_multimap [of ?kvs "''drainable_labels''" "''a=1,b=3,a=2''"]
  have pairs: "plain_pairs ?kvs"
    by (simp add: plain_pairs_def plain_def)
  have rendered: "render ?kvs = ''a=1,b=3,a=2''"
    by (simp add: render_def entry_of_def)
  have entries: "\<forall>entry\<in>set (str_split (CHR '','') ''a=1,b=3,a=2'').
      count_list entry (CHR ''='') = 1"
    by simp
  have "convert ''a=1,b=3,a=2'' ''drainable_labels'' = Inr (multimap_of ?kvs)"
    using both pairs by (simp only: rendered)
  moreover have "multimap_of ?kvs ''a'' = Some {''1'', ''2''}"
    by (auto simp: multimap_of_def)
  moreover have "multimap_of ?kvs ''c'' = None"
    by (simp add: multimap_of_def)
  moreover have "\<exists>pairs. plain_pairs pairs \<and> ''a=1,b=3,a=2'' = render pairs \<and>
      convert ''a=1,b=3,a=2'' ''drainable_labels'' = Inr (multimap_of pairs)"
    using both entries by blast
  ultimately show ?thesis
    using pairs rendered by simp
qed

text \<open>
  C5. A non-empty input with an entry that does not hold exactly one equals sign is
  rejected while parsing: \<open>convert\<close> fails with \<open>BadParameter\<close> and returns no map.
\<close>

theorem convert_rejects:
  assumes "value \<noteq> []"
    and "\<exists>entry\<in>set (str_split (CHR '','') value). count_list entry (CHR ''='') \<noteq> 1"
  shows "convert value param = Inl (BadParameter (fail_message value) param)"
  using assms by (simp add: convert_def convert_entries_bad)

theorem convert_rejects_witness:
  "convert ''a=1,b'' ''drainable_labels'' =
     Inl (BadParameter ''a=1,b is not a key=value pair'' ''drainable_labels'') \<and>
   convert ''a=1=2'' ''drainable_labels'' =
     Inl (BadParameter ''a=1=2 is not a key=value pair'' ''drainable_labels'')"
  using convert_rejects [of "''a=1,b''" "''drainable_labels''"]
    convert_rejects [of "''a=1=2''" "''drainable_labels''"]
  by (simp add: fail_message_def)

text \<open>
  C6. Both multimap options are parsed by the one \<open>MULTIMAP_PARAM\<close>: on every input they
  return the same map or both fail (the failures differ only in the parameter they name).
\<close>

lemma convert_entries_param:
  "convert_entries value p entries result =
     (case convert_entries value q entries result of
        Inl (BadParameter message _) \<Rightarrow> Inl (BadParameter message p)
      | Inr m \<Rightarrow> Inr m)"
  by (induction entries arbitrary: result) (auto split: list.splits)

lemma convert_param:
  "convert value p =
     (case convert value q of
        Inl (BadParameter message _) \<Rightarrow> Inl (BadParameter message p)
      | Inr m \<Rightarrow> Inr m)"
  using convert_entries_param [of "value" p _ _ q] by (simp add: convert_def)

theorem same_conversion:
  "(drainable_labels_option value = Inr m \<longleftrightarrow> instance_type_priorities_option value = Inr m) \<and>
   ((\<exists>e. drainable_labels_option value = Inl e) \<longleftrightarrow>
    (\<exists>e. instance_type_priorities_option value = Inl e))"
proof -
  let ?d = "''drainable_labels''" and ?i = "''instance_type_priorities''"
  have "convert value ?d = Inr m \<longleftrightarrow> convert value ?i = Inr m" for m
    using convert_param [of "value" ?d ?i]
    by (auto split: sum.splits error.splits)
  moreover have "(\<exists>e. convert value ?d = Inl e) \<longleftrightarrow> (\<exists>e. convert value ?i = Inl e)"
    using convert_param [of "value" ?d ?i]
    by (auto split: sum.splits error.splits)
  ultimately show ?thesis
    by (simp add: drainable_labels_option_def instance_type_priorities_option_def
        MULTIMAP_PARAM_def)
qed

text \<open>
  C8. The empty string, the default of both multimap options, converts to the empty map
  without failing.
\<close>

theorem convert_empty: "convert '''' param = Inr Map.empty"
  by (simp add: convert_def)

text \<open>
  C9. An entry with an empty value or an empty key is accepted: wherever it stands in the
  input, \<open>k=\<close> puts the empty string into the set of \<open>k\<close>, and \<open>=v\<close> puts \<open>v\<close> into the set
  of the empty key.
\<close>

theorem convert_empty_parts:
  assumes "plain_pairs kvs"
  shows "\<exists>m. convert (render kvs) param = Inr m \<and>
           (\<forall>k. (k, '''') \<in> set kvs \<longrightarrow> (\<exists>vs. m k = Some vs \<and> '''' \<in> vs)) \<and>
           (\<forall>v. ('''', v) \<in> set kvs \<longrightarrow> (\<exists>vs. m '''' = Some vs \<and> v \<in> vs))"
proof -
  have "(k, v) \<in> set kvs \<Longrightarrow> \<exists>vs. multimap_of kvs k = Some vs \<and> v \<in> vs" for k v
    by (force simp: multimap_of_def)
  then show ?thesis
    using convert_render [OF assms, of param] by blast
qed

theorem convert_empty_parts_witness:
  "render [(''k'', '''')] = ''k='' \<and>
   convert ''k='' ''drainable_labels'' = Inr [''k'' \<mapsto> {''''}] \<and>
   render [('''', ''v'')] = ''=v'' \<and>
   convert ''=v'' ''drainable_labels'' = Inr ['''' \<mapsto> {''v''}] \<and>
   (\<exists>m vs vs'. convert ''a=1,k=,=v'' ''drainable_labels'' = Inr m \<and>
      m ''k'' = Some vs \<and> '''' \<in> vs \<and> m '''' = Some vs' \<and> ''v'' \<in> vs')"
proof -
  have "plain_pairs [(''a'', ''1''), (''k'', ''''), ('''', ''v'')]"
    by (simp add: plain_pairs_def plain_def)
  from convert_empty_parts [OF this, of "''drainable_labels''"]
  have "\<exists>m vs vs'. convert ''a=1,k=,=v'' ''drainable_labels'' = Inr m \<and>
      m ''k'' = Some vs \<and> '''' \<in> vs \<and> m '''' = Some vs' \<and> ''v'' \<in> vs'"
    by (simp add: render_def entry_of_def) blast
  moreover have "convert ''k='' ''drainable_labels'' = Inr [''k'' \<mapsto> {''''}]"
    and "convert ''=v'' ''drainable_labels'' = Inr ['''' \<mapsto> {''v''}]"
    by (simp_all add: convert_def add_entry_def)
  ultimately show ?thesis
    by (simp add: render_def entry_of_def)
qed

subsection \<open>The logging level\<close>

lemma verbose_option_cases: "verbose_option n \<in> {0, 1, 2, 3}"
  by (auto simp: verbose_option_def IntRange_clamp_def)

lemma log_level_table:
  "log_level 0 = CRITICAL" "log_level 1 = WARNING" "log_level 2 = INFO" "log_level 3 = DEBUG"
  by (simp_all add: log_level_def dict_get_def DEBUG_LOGGING_MAP_def)

text \<open>Whatever \<open>main\<close> is called with, the level it sets is one of the four of the table:
  a key outside the table falls back to \<open>CRITICAL\<close>.\<close>

lemma log_level_any: "log_level v \<in> {CRITICAL, WARNING, INFO, DEBUG}"
  by (simp add: log_level_def dict_get_def DEBUG_LOGGING_MAP_def)

text \<open>
  C7. The verbosity count is clamped to \<open>0..3\<close>, the level set from it is one of
  \<open>CRITICAL\<close>, \<open>WARNING\<close>, \<open>INFO\<close>, \<open>DEBUG\<close>, and a larger clamped count never gives a
  numerically larger (less verbose) level.
\<close>

theorem log_level_monotone:
  "0 \<le> verbose_option n \<and> verbose_option n \<le> 3 \<and>
   log_level (verbose_option n) \<in> {CRITICAL, WARNING, INFO, DEBUG} \<and>
   (verbose_option n1 \<le> verbose_option n2 \<longrightarrow>
      log_level (verbose_option n2) \<le> log_level (verbose_option n1))"
proof -
  have levels: "DEBUG \<le> INFO" "INFO \<le> WARNING" "WARNING \<le> CRITICAL"
    by (simp_all add: DEBUG_def INFO_def WARNING_def CRITICAL_def)
  have range: "0 \<le> verbose_option n \<and> verbose_option n \<le> 3"
    using verbose_option_cases [of n] by auto
  have level: "log_level (verbose_option n) \<in> {CRITICAL, WARNING, INFO, DEBUG}"
    using verbose_option_cases [of n] by (auto simp: log_level_table)
  have "log_level (verbose_option n2) \<le> log_level (verbose_option n1)"
    if "verbose_option n1 \<le> verbose_option n2"
    using verbose_option_cases [of n1] verbose_option_cases [of n2] that levels
    by (auto simp: log_level_table)
  with range level show ?thesis by blast
qed

theorem log_level_monotone_witness:
  "verbose_option 7 = 3 \<and> log_level (verbose_option 7) = DEBUG \<and>
   verbose_option 1 \<le> verbose_option 5 \<and>
   log_level (verbose_option 5) \<le> log_level (verbose_option 1) \<and>
   log_level (verbose_option 5) = 10 \<and> log_level (verbose_option 1) = 30"
  using log_level_monotone [of 7 1 5]
  by (simp add: verbose_option_def IntRange_clamp_def log_level_def dict_get_def
      DEBUG_LOGGING_MAP_def DEBUG_def WARNING_def)

subsection \<open>Backoff\<close>

lemma sleeps_append: "sleeps (xs @ ys) = sleeps xs @ sleeps ys"
  by (induction xs rule: sleeps.induct) simp_all

lemma logged_backoffs_append:
  "logged_backoffs (xs @ ys) = logged_backoffs xs @ logged_backoffs ys"
  by (induction xs rule: logged_backoffs.induct) simp_all

lemma loop_passes_append:
  "loop_passes sleep backoff (xs @ ys) =
     (fst (loop_passes sleep backoff xs) @
        fst (loop_passes sleep (snd (loop_passes sleep backoff xs)) ys),
      snd (loop_passes sleep (snd (loop_passes sleep backoff xs)) ys))"
  by (induction xs arbitrary: backoff) (simp_all add: split_beta)

text \<open>Every pass sleeps exactly once.\<close>

lemma loop_passes_sleeps_length:
  "length (sleeps (fst (loop_passes sleep backoff results))) = length results"
  by (induction results arbitrary: backoff) (simp_all add: loop_body_def split_beta sleeps_append)

lemma upt_0_Suc: "[0..<Suc n] = 0 # map Suc [0..<n]"
  by (simp add: upt_conv_Cons map_Suc_upt del: upt_Suc)

lemma backoff_idle: "snd (loop_passes sleep backoff (replicate n False)) = backoff * 2 ^ n"
  by (induction n arbitrary: backoff) (simp_all add: loop_body_def split_beta)

lemma sleeps_idle:
  "sleeps (fst (loop_passes sleep backoff (replicate n False))) =
     map (\<lambda>i. backoff * 2 ^ Suc i) [0..<n]"
proof (induction n arbitrary: backoff)
  case 0
  show ?case by simp
next
  case (Suc n)
  have "sleeps (fst (loop_passes sleep backoff (replicate (Suc n) False))) =
          backoff * 2 # sleeps (fst (loop_passes sleep (backoff * 2) (replicate n False)))"
    by (simp add: loop_body_def split_beta)
  also have "\<dots> = backoff * 2 # map (\<lambda>i. backoff * 2 * 2 ^ Suc i) [0..<n]"
    by (simp only: Suc.IH)
  also have "\<dots> = map (\<lambda>i. backoff * 2 ^ Suc i) [0..<Suc n]"
    by (simp add: upt_0_Suc comp_def del: upt_Suc)
  finally show ?case .
qed

lemma logged_idle:
  "logged_backoffs (fst (loop_passes sleep backoff (replicate n False))) =
     map (\<lambda>i. backoff * 2 ^ i) [0..<n]"
proof (induction n arbitrary: backoff)
  case 0
  show ?case by simp
next
  case (Suc n)
  have "logged_backoffs (fst (loop_passes sleep backoff (replicate (Suc n) False))) =
          backoff # logged_backoffs (fst (loop_passes sleep (backoff * 2) (replicate n False)))"
    by (simp add: loop_body_def split_beta)
  also have "\<dots> = backoff # map (\<lambda>i. backoff * 2 * 2 ^ i) [0..<n]"
    by (simp only: Suc.IH)
  also have "\<dots> = map (\<lambda>i. backoff * 2 ^ i) [0..<Suc n]"
    by (simp add: upt_0_Suc comp_def del: upt_Suc)
  finally show ?case .
qed

lemma backoff_after_scaled:
  "results = [] \<or> last results \<Longrightarrow> snd (run_loop sleep results) = sleep"
proof (cases results rule: rev_cases)
  case Nil
  then show ?thesis by (simp add: run_loop_def)
next
  case (snoc pre scaled)
  assume "results = [] \<or> last results"
  with snoc have "scaled" by simp
  with snoc show ?thesis
    by (simp add: run_loop_def loop_passes_append loop_body_def)
qed

text \<open>
  C2. A pass in which \<open>cluster.scale_loop()\<close> returns true sleeps the base interval and
  leaves \<open>backoff\<close> at the base interval, whatever \<open>backoff\<close> was and whatever results came
  before.
\<close>

theorem reset_after_scaled:
  "loop_body sleep backoff True = ([ScaleLoop True, Sleep sleep], sleep) \<and>
   run_loop sleep (pre @ [True]) =
     (fst (run_loop sleep pre) @ [ScaleLoop True, Sleep sleep], sleep)"
  by (simp add: run_loop_def loop_passes_append loop_body_def)

text \<open>
  C1, as the code has it. The body doubles \<open>backoff\<close> before it sleeps, so the sleep after
  the first false result is already twice the base interval. At the start of the loop or
  after a pass that returned true, \<open>N\<close> false results in a row are followed by sleeps of
  \<open>sleep * 2\<close>, \<open>sleep * 4\<close>, ..., the last of them \<open>sleep * 2 ^ N\<close>; the value logged before
  that last sleep is \<open>sleep * 2 ^ (N - 1)\<close>.
\<close>

theorem backoff_doubles:
  assumes "pre = [] \<or> last pre" and "0 < N"
  shows "sleeps (fst (run_loop sleep (pre @ replicate N False))) =
           sleeps (fst (run_loop sleep pre)) @ map (\<lambda>i. sleep * 2 ^ Suc i) [0..<N] \<and>
         last (sleeps (fst (run_loop sleep (pre @ replicate N False)))) = sleep * 2 ^ N \<and>
         last (logged_backoffs (fst (run_loop sleep (pre @ replicate N False)))) =
           sleep * 2 ^ (N - 1) \<and>
         snd (run_loop sleep (pre @ replicate N False)) = sleep * 2 ^ N"
proof -
  have start: "snd (loop_passes sleep sleep pre) = sleep"
    using backoff_after_scaled [OF assms(1)] by (simp add: run_loop_def)
  from assms(2) obtain n where N: "N = Suc n"
    by (cases N) auto
  have all: "sleeps (fst (run_loop sleep (pre @ replicate N False))) =
           sleeps (fst (run_loop sleep pre)) @ map (\<lambda>i. sleep * 2 ^ Suc i) [0..<N]"
    by (simp only: run_loop_def loop_passes_append fst_conv start sleeps_append sleeps_idle)
  have "last (sleeps (fst (run_loop sleep (pre @ replicate N False)))) = sleep * 2 ^ N"
    unfolding all by (simp add: N)
  moreover have "logged_backoffs (fst (run_loop sleep (pre @ replicate N False))) =
      logged_backoffs (fst (run_loop sleep pre)) @ map (\<lambda>i. sleep * 2 ^ i) [0..<N]"
    by (simp only: run_loop_def loop_passes_append fst_conv start logged_backoffs_append
        logged_idle)
  then have "last (logged_backoffs (fst (run_loop sleep (pre @ replicate N False)))) =
      sleep * 2 ^ (N - 1)"
    by (simp add: N)
  moreover have "snd (run_loop sleep (pre @ replicate N False)) = sleep * 2 ^ N"
    by (simp only: run_loop_def loop_passes_append snd_conv start backoff_idle)
  ultimately show ?thesis
    using all by blast
qed

theorem backoff_doubles_witness:
  "sleeps (fst (run_loop 60 ([False, True] @ replicate 3 False))) = [120, 60, 120, 240, 480] \<and>
   last (sleeps (fst (run_loop 60 ([False, True] @ replicate 3 False)))) = 60 * 2 ^ 3 \<and>
   last (logged_backoffs (fst (run_loop 60 ([False, True] @ replicate 3 False)))) = 60 * 2 ^ 2"
  using backoff_doubles [of "[False, True]" 3 60]
  by (simp add: run_loop_def loop_body_def numeral_3_eq_3)

text \<open>
  C1 as stated fails at the first false result: with the default interval of 60 seconds
  the sleep after it is 120 seconds, not \<open>60 * 2 ^ (1 - 1) = 60\<close>.
\<close>

theorem first_idle_sleep_counterexample:
  "last (sleeps (fst (run_loop 60 (replicate 1 False)))) = 120 \<and>
   last (sleeps (fst (run_loop 60 (replicate 1 False)))) \<noteq> 60 * 2 ^ (1 - 1)"
  by (simp add: run_loop_def loop_body_def)

subsection \<open>Leaving the loop\<close>







lemma main_loop_uncaught:
  assumes returns: "main_loop sleep backoff results = Some x"
  shows "\<exists>e. x = Uncaught e"
proof (rule main_loop.raw_induct [where P = "\<lambda>_ _ _ x. \<exists>e. x = Uncaught e", OF _ returns])
  fix f :: "int \<Rightarrow> int \<Rightarrow> (py_exception + bool) stream \<Rightarrow> exit option" and s b rs y
  assume "\<And>s b rs y. f s b rs = Some y \<Longrightarrow> \<exists>e. y = Uncaught e"
    and "(case shd rs of
            Inl e \<Rightarrow> Some (Uncaught e)
          | Inr scaled \<Rightarrow>
              if scaled
              then (case time_sleep s of
                      Inl e \<Rightarrow> Some (Uncaught e)
                    | Inr _ \<Rightarrow> f s s (stl rs))
              else (case time_sleep (b * 2) of
                      Inl e \<Rightarrow> Some (Uncaught e)
                    | Inr _ \<Rightarrow> f s (b * 2) (stl rs))) = Some y"
  then show "\<exists>e. y = Uncaught e"
    by (auto split: sum.splits if_splits)
qed














subsection \<open>Startup\<close>

lemma truthy_iff: "truthy s \<longleftrightarrow> s \<noteq> None \<and> s \<noteq> Some ''''"
  by (cases s) (simp_all add: truthy_def)

lemma log_level_at_most_error: "log_level v \<le> ERROR \<longleftrightarrow> 1 \<le> v \<and> v \<le> 3"
proof -
  have "v \<in> {1, 2, 3} \<longleftrightarrow> 1 \<le> v \<and> v \<le> 3"
    by auto
  then show ?thesis
    by (auto simp: log_level_def dict_get_def DEBUG_LOGGING_MAP_def ERROR_def CRITICAL_def
        WARNING_def INFO_def DEBUG_def)
qed

text \<open>
  C3, as the code has it. When the access key or the secret key is \<open>None\<close> or empty,
  \<open>main\<close> configures the logger, calls \<open>logger.error\<close> and exits with status 1: the trace
  holds no constructor and no pass of the loop. The record of that call reaches standard
  error when the verbosity count is 1, 2 or 3; at any other count the level set just
  before is \<open>CRITICAL\<close>, above \<open>ERROR\<close>, and nothing is written. When both keys are
  present the check lets \<open>main\<close> go on to build the notifier and the cluster, and \<open>main\<close>
  never ends in \<open>sys.exit\<close>.
\<close>

theorem credentials_checked_first:
  "(arg_aws_access_key args = None \<or> arg_aws_access_key args = Some '''' \<or>
    arg_aws_secret_key args = None \<or> arg_aws_secret_key args = Some '''' \<longrightarrow>
      startup args =
        ([AddHandler, SetLevel (log_level (arg_verbose args)),
          Log ERROR (Message missing_credentials)],
         Inl (SystemExit 1)) \<and>
      main args results = Some (SystemExit 1) \<and>
      main_trace args passes = fst (startup args) \<and>
      emitted (main_trace args passes) =
        (if 1 \<le> arg_verbose args \<and> arg_verbose args \<le> 3
         then [(ERROR, Message missing_credentials)] else [])) \<and>
   (arg_aws_access_key args \<noteq> None \<and> arg_aws_access_key args \<noteq> Some '''' \<and>
    arg_aws_secret_key args \<noteq> None \<and> arg_aws_secret_key args \<noteq> Some '''' \<longrightarrow>
      startup args =
        ([AddHandler, SetLevel (log_level (arg_verbose args)),
          NewNotifier (arg_slack_hook args) (arg_slack_bot_token args),
          NewCluster (cluster_of args)],
         Inr (cluster_of args)) \<and>
      (\<forall>status. main args results \<noteq> Some (SystemExit status)))"
proof (intro conjI impI)
  assume present: "arg_aws_access_key args \<noteq> None \<and> arg_aws_access_key args \<noteq> Some '''' \<and>
    arg_aws_secret_key args \<noteq> None \<and> arg_aws_secret_key args \<noteq> Some ''''"
  then show "startup args =
        ([AddHandler, SetLevel (log_level (arg_verbose args)),
          NewNotifier (arg_slack_hook args) (arg_slack_bot_token args),
          NewCluster (cluster_of args)],
         Inr (cluster_of args))"
    by (simp add: startup_def configure_logging_def truthy_iff)
  from present have "main args results = main_loop (arg_sleep args) (arg_sleep args) results"
    by (simp add: main_def startup_def truthy_iff)
  then show "\<forall>status. main args results \<noteq> Some (SystemExit status)"
    using main_loop_uncaught [of "arg_sleep args" "arg_sleep args" results] by auto
next
  assume missing: "arg_aws_access_key args = None \<or> arg_aws_access_key args = Some '''' \<or>
    arg_aws_secret_key args = None \<or> arg_aws_secret_key args = Some ''''"
  then have check: "\<not> (truthy (arg_aws_secret_key args) \<and> truthy (arg_aws_access_key args))"
    by (auto simp: truthy_iff)
  then show start: "startup args =
        ([AddHandler, SetLevel (log_level (arg_verbose args)),
          Log ERROR (Message missing_credentials)],
         Inl (SystemExit 1))"
    by (simp add: startup_def configure_logging_def)
  then show "main args results = Some (SystemExit 1)"
    by (simp add: main_def)
  from start show trace: "main_trace args passes = fst (startup args)"
    by (simp add: main_trace_def)
  show "emitted (main_trace args passes) =
        (if 1 \<le> arg_verbose args \<and> arg_verbose args \<le> 3
         then [(ERROR, Message missing_credentials)] else [])"
    unfolding trace start
    using log_level_at_most_error [of "arg_verbose args"] by (simp add: emitted_def)
qed

theorem credentials_checked_first_witness:
  "emitted (main_trace (default_args\<lparr>arg_verbose := 1\<rparr>) []) =
     [(ERROR, Message missing_credentials)] \<and>
   main (default_args\<lparr>arg_verbose := 1\<rparr>) (returned (sconst False)) = Some (SystemExit 1) \<and>
   main (default_args\<lparr>arg_aws_access_key := Some ''AK'', arg_aws_secret_key := Some ''''\<rparr>)
     (returned (sconst False)) = Some (SystemExit 1) \<and>
   snd (startup (default_args\<lparr>arg_aws_access_key := Some ''AK'',
                              arg_aws_secret_key := Some ''SK''\<rparr>)) =
     Inr (cluster_of (default_args\<lparr>arg_aws_access_key := Some ''AK'',
                                   arg_aws_secret_key := Some ''SK''\<rparr>))"
proof -
  let ?verbose = "default_args\<lparr>arg_verbose := 1\<rparr>"
  let ?empty = "default_args\<lparr>arg_aws_access_key := Some ''AK'', arg_aws_secret_key := Some ''''\<rparr>"
  let ?both = "default_args\<lparr>arg_aws_access_key := Some ''AK'', arg_aws_secret_key := Some ''SK''\<rparr>"
  let ?results = "returned (sconst False)"
  have verbose: "arg_aws_access_key ?verbose = None" "arg_verbose ?verbose = 1"
    and empty: "arg_aws_secret_key ?empty = Some ''''"
    and both: "arg_aws_access_key ?both = Some ''AK''" "arg_aws_secret_key ?both = Some ''SK''"
    by (simp_all add: default_args_def)
  from credentials_checked_first [of ?verbose ?results "[]"] verbose(1)
  have "emitted (main_trace ?verbose []) =
          (if 1 \<le> arg_verbose ?verbose \<and> arg_verbose ?verbose \<le> 3
           then [(ERROR, Message missing_credentials)] else [])"
    and "main ?verbose ?results = Some (SystemExit 1)"
    by blast+
  moreover from credentials_checked_first [of ?empty ?results "[]"] empty
  have "main ?empty ?results = Some (SystemExit 1)"
    by blast
  moreover from credentials_checked_first [of ?both ?results "[]"]
  have "snd (startup ?both) = Inr (cluster_of ?both)"
    by (simp add: both)
  ultimately show ?thesis
    by (simp only: verbose(2)) simp
qed

text \<open>
  C3 as stated fails at the default arguments (no credentials, no \<open>-v\<close>): the process
  exits with status 1 and the call of \<open>logger.error\<close> writes nothing, since the level set
  on line 95 is \<open>CRITICAL\<close>.
\<close>

theorem silent_exit_counterexample:
  "main default_args (returned (sconst False)) = Some (SystemExit 1) \<and>
   fst (startup default_args) =
     [AddHandler, SetLevel CRITICAL, Log ERROR (Message missing_credentials)] \<and>
   emitted (fst (startup default_args)) = []"
  by (simp add: main_def startup_def configure_logging_def truthy_def default_args_def
      log_level_def dict_get_def DEBUG_LOGGING_MAP_def emitted_def ERROR_def CRITICAL_def)

end
